theory Spec2Isabelle
  imports Complex_Main "HOL-Library.Multiset"
begin

section \<open>Errors\<close>

text \<open>
  The exceptions the code of \<^verbatim>\<open>models.py\<close> can meet: the lookup error of the
  indexer, Python's \<^verbatim>\<open>IndexError\<close> of a list subscript out of range, its
  \<^verbatim>\<open>AttributeError\<close> of a method call on \<^verbatim>\<open>None\<close>, and the two
  \<^verbatim>\<open>raise Exception(...)\<close> of \<^verbatim>\<open>train_model\<close>.
\<close>

datatype error =
  LookupError | IndexError | AttributeError | FeatsConfigError | ModelConfigError

section \<open>Vocabulary indexer\<close>

text \<open>
  Modelled from the spec: the class \<^verbatim>\<open>Indexer\<close> lives in \<^verbatim>\<open>utils.py\<close>, which is
  imported by \<^verbatim>\<open>models.py\<close> but is not among the sources. The spec (section 4.1)
  gives its contract: indices are dense, start at 0 and are handed out in first-seen
  order. An indexer is therefore the list of its keys, the index of a key being its
  position.
\<close>

type_synonym indexer = "string list"

text \<open>Modelled from the spec: \<^verbatim>\<open>contains(key) -> bool\<close>.\<close>

definition contains :: "indexer \<Rightarrow> string \<Rightarrow> bool" where
  "contains ix k = (k \<in> set ix)"

text \<open>Modelled from the spec: \<^verbatim>\<open>index_of(key) -> int\<close>, a lookup error when absent.\<close>

fun index_of :: "indexer \<Rightarrow> string \<Rightarrow> error + nat" where
  "index_of [] k = Inl LookupError"
| "index_of (x # xs) k =
     (if x = k then Inr 0
      else (case index_of xs k of Inl e \<Rightarrow> Inl e | Inr i \<Rightarrow> Inr (Suc i)))"

text \<open>
  Modelled from the spec: \<^verbatim>\<open>add_and_get_index(key) -> int\<close> returns the existing
  index of a present key, and otherwise assigns the next contiguous integer.
\<close>

definition add_and_get_index :: "indexer \<Rightarrow> string \<Rightarrow> nat \<times> indexer" where
  "add_and_get_index ix k =
     (case index_of ix k of Inr i \<Rightarrow> (i, ix) | Inl e \<Rightarrow> (length ix, ix @ [k]))"

text \<open>Modelled from the spec: \<^verbatim>\<open>size() -> int\<close>, also what \<^verbatim>\<open>len(indexer)\<close> gives.\<close>

definition size_of :: "indexer \<Rightarrow> nat" where
  "size_of ix = length ix"

section \<open>Sparse feature vectors\<close>

text \<open>
  \<^verbatim>\<open>str.lower()\<close> on the ASCII letters; every other character is left as it is
  (tokens are taken to be ASCII).
\<close>

definition lower_char :: "char \<Rightarrow> char" where
  "lower_char c =
     (let n = (of_char c :: nat) in if 65 \<le> n \<and> n \<le> 90 then char_of (n + 32) else c)"

definition lower :: "string \<Rightarrow> string" where
  "lower s = map lower_char s"

text \<open>
  A \<^verbatim>\<open>Counter\<close> is a dictionary, iterated in insertion order: an association list
  from feature index to count. \<^verbatim>\<open>features[k] = v\<close> overwrites the value of a key
  already present, where it stands, and appends a new key.
\<close>

type_synonym counter = "(nat \<times> int) list"

fun counter_set :: "nat \<Rightarrow> int \<Rightarrow> counter \<Rightarrow> counter" where
  "counter_set k v [] = [(k, v)]"
| "counter_set k v ((k', v') # fs) =
     (if k' = k then (k, v) # fs else (k', v') # counter_set k v fs)"

section \<open>Feature extractors\<close>

text \<open>
  The three extractor classes run the same loop body on their n-grams; the extractor
  object holds the indexer, which the body may grow, so the indexer is threaded through.
  \<^verbatim>\<open>
  if self.indexer.contains(word):
      features[self.indexer.index_of(word)] = 1
  else:
      if add_to_indexer:
          features[self.indexer.add_and_get_index(word)] = 1
  \<close>
\<close>

definition feature_step :: "bool \<Rightarrow> string \<Rightarrow> counter \<times> indexer \<Rightarrow> error + counter \<times> indexer" where
  "feature_step add_to_indexer g st =
     (case st of (features, ix) \<Rightarrow>
        if contains ix g then
          (case index_of ix g of
             Inl e \<Rightarrow> Inl e
           | Inr i \<Rightarrow> Inr (counter_set i 1 features, ix))
        else if add_to_indexer then
          (case add_and_get_index ix g of (i, ix') \<Rightarrow> Inr (counter_set i 1 features, ix'))
        else Inr (features, ix))"

fun feature_loop :: "bool \<Rightarrow> string list \<Rightarrow> counter \<times> indexer \<Rightarrow> error + counter \<times> indexer" where
  "feature_loop add_to_indexer [] st = Inr st"
| "feature_loop add_to_indexer (g # gs) st =
     (case feature_step add_to_indexer g st of
        Inl e \<Rightarrow> Inl e
      | Inr st' \<Rightarrow> feature_loop add_to_indexer gs st')"

text \<open>The n-grams each class visits, in the order of its \<^verbatim>\<open>for\<close> loop.\<close>

definition unigrams :: "string list \<Rightarrow> string list" where
  "unigrams sentence = map lower sentence"

definition bigrams :: "string list \<Rightarrow> string list" where
  "bigrams sentence =
     map (\<lambda>i. lower (sentence ! i @ '' '' @ sentence ! (i + 1)))
       [0 ..< nat (int (length sentence) - 1)]"

definition trigrams :: "string list \<Rightarrow> string list" where
  "trigrams sentence =
     map (\<lambda>i. lower (sentence ! i @ '' '' @ sentence ! (i + 1) @ '' '' @ sentence ! (i + 2)))
       [0 ..< nat (int (length sentence) - 2)]"

datatype extractor = Unigram | Bigram | Better

definition ngrams :: "extractor \<Rightarrow> string list \<Rightarrow> string list" where
  "ngrams fe sentence =
     (case fe of Unigram \<Rightarrow> unigrams sentence
      | Bigram \<Rightarrow> bigrams sentence
      | Better \<Rightarrow> trigrams sentence)"

text \<open>
  \<^verbatim>\<open>extract_features(sentence, add_to_indexer)\<close> of the extractor \<open>fe\<close> whose
  indexer is \<open>ix\<close>: the feature vector and the indexer afterwards.
\<close>

definition extract_features ::
  "extractor \<Rightarrow> indexer \<Rightarrow> string list \<Rightarrow> bool \<Rightarrow> error + counter \<times> indexer" where
  "extract_features fe ix sentence add_to_indexer =
     feature_loop add_to_indexer (ngrams fe sentence) ([], ix)"

section \<open>Linear classifiers\<close>

text \<open>
  A classifier object holds its weight vector (a Python list of numbers, read here as
  reals: floating-point rounding and overflow are not modelled) and its featurizer,
  that is, an extractor class together with that extractor's indexer.

  The scoring loop shared by \<^verbatim>\<open>predict\<close>, \<^verbatim>\<open>p_1_x\<close> and \<^verbatim>\<open>p_1_neg_x\<close>:
  \<^verbatim>\<open>
  for f in features:
      predicted_val += features[f]*self.weight_vector[f]
  \<close>
  A subscript beyond the end of the weight vector raises \<^verbatim>\<open>IndexError\<close>.
\<close>

fun score_loop :: "counter \<Rightarrow> real list \<Rightarrow> real \<Rightarrow> error + real" where
  "score_loop [] weight_vector acc = Inr acc"
| "score_loop ((f, c) # fs) weight_vector acc =
     (if f < length weight_vector
      then score_loop fs weight_vector (acc + of_int c * weight_vector ! f)
      else Inl IndexError)"

text \<open>
  \<^verbatim>\<open>extract_features(sentence)\<close> with the default \<^verbatim>\<open>add_to_indexer=False\<close>,
  followed by the scoring loop from 0: the score and the indexer afterwards.
\<close>

definition score_of ::
  "extractor \<Rightarrow> indexer \<Rightarrow> real list \<Rightarrow> string list \<Rightarrow> error + real \<times> indexer" where
  "score_of fe ix weight_vector sentence =
     (case extract_features fe ix sentence False of
        Inl e \<Rightarrow> Inl e
      | Inr (features, ix') \<Rightarrow>
          (case score_loop features weight_vector 0 of
             Inl e \<Rightarrow> Inl e
           | Inr s \<Rightarrow> Inr (s, ix')))"

text \<open>\<^verbatim>\<open>PerceptronClassifier.predict\<close>.\<close>

definition perceptron_predict ::
  "extractor \<Rightarrow> indexer \<Rightarrow> real list \<Rightarrow> string list \<Rightarrow> error + int \<times> indexer" where
  "perceptron_predict fe ix weight_vector sentence =
     (case score_of fe ix weight_vector sentence of
        Inl e \<Rightarrow> Inl e
      | Inr (predicted_val, ix') \<Rightarrow> Inr (if predicted_val > 0 then 1 else 0, ix'))"

text \<open>\<^verbatim>\<open>LogisticRegressionClassifier.p_1_x\<close>, \<^verbatim>\<open>p_1_neg_x\<close> and \<^verbatim>\<open>predict\<close>.\<close>

definition p_1_x ::
  "extractor \<Rightarrow> indexer \<Rightarrow> real list \<Rightarrow> string list \<Rightarrow> error + real \<times> indexer" where
  "p_1_x fe ix weight_vector sentence =
     (case score_of fe ix weight_vector sentence of
        Inl e \<Rightarrow> Inl e
      | Inr (s, ix') \<Rightarrow> Inr (exp s / (1 + exp s), ix'))"

definition p_1_neg_x ::
  "extractor \<Rightarrow> indexer \<Rightarrow> real list \<Rightarrow> string list \<Rightarrow> error + real \<times> indexer" where
  "p_1_neg_x fe ix weight_vector sentence =
     (case score_of fe ix weight_vector sentence of
        Inl e \<Rightarrow> Inl e
      | Inr (s, ix') \<Rightarrow> Inr (1 / (1 + exp s), ix'))"

definition lr_predict ::
  "extractor \<Rightarrow> indexer \<Rightarrow> real list \<Rightarrow> string list \<Rightarrow> error + int \<times> indexer" where
  "lr_predict fe ix weight_vector sentence =
     (case p_1_x fe ix weight_vector sentence of
        Inl e \<Rightarrow> Inl e
      | Inr (P_1_X, ix') \<Rightarrow> Inr (if P_1_X > 0.5 then 1 else 0, ix'))"

text \<open>\<^verbatim>\<open>TrivialSentimentClassifier.predict\<close>.\<close>

definition trivial_predict :: "string list \<Rightarrow> int" where
  "trivial_predict sentence = 1"

section \<open>The random module\<close>

text \<open>
  \<^verbatim>\<open>random.seed\<close> and \<^verbatim>\<open>random.shuffle\<close> act on the global generator of Python's
  standard library, which is no part of the repository. The generator is a parameter:
  a type \<open>'g\<close> of generator states with the two operations the shuffle rests on,
  \<open>seed\<close> (the state after \<^verbatim>\<open>random.seed(a)\<close>) and \<open>randbelow\<close> (a draw below
  \<open>n\<close> and the state after it).
\<close>

record 'g random_module =
  seed :: "int \<Rightarrow> 'g"
  randbelow :: "nat \<Rightarrow> 'g \<Rightarrow> nat \<times> 'g"

text \<open>
  \<^verbatim>\<open>random.shuffle(x)\<close> is the Fisher-Yates loop of the standard library, in place:
  \<^verbatim>\<open>
  for i in reversed(range(1, len(x))):
      j = randbelow(i + 1)
      x[i], x[j] = x[j], x[i]
  \<close>
  The library's draw satisfies \<open>0 \<le> j < i + 1\<close>; the model takes the parameter's draw
  modulo \<open>i + 1\<close>, so that every parameter respects that contract.
\<close>

fun shuffle_loop :: "'g random_module \<Rightarrow> nat \<Rightarrow> 'a list \<Rightarrow> 'g \<Rightarrow> 'a list \<times> 'g" where
  "shuffle_loop R 0 x g = (x, g)"
| "shuffle_loop R (Suc k) x g =
     (let i = Suc k in
      case randbelow R (i + 1) g of (r, g') \<Rightarrow>
        let j = r mod (i + 1) in
        shuffle_loop R k ((x[i := x ! j])[j := x ! i]) g')"

definition shuffle :: "'g random_module \<Rightarrow> 'a list \<Rightarrow> 'g \<Rightarrow> 'a list \<times> 'g" where
  "shuffle R x g = shuffle_loop R (length x - 1) x g"

subsection \<open>The generator of the standard library\<close>







section \<open>Trainers\<close>

text \<open>A \<^verbatim>\<open>SentimentExample\<close>: its tokens and its label.\<close>

record sentiment_example =
  words :: "string list"
  label :: int

text \<open>
  What a trainer leaves behind: the classifier it returns (weight vector and the
  featurizer's indexer), the caller's list \<^verbatim>\<open>train_exs\<close>, which the trainer shuffles in
  place, and the state of the global generator.
\<close>

record 'g trained =
  weight_vector :: "real list"
  featurizer_indexer :: indexer
  train_exs_after :: "sentiment_example list"
  random_state :: 'g

subsection \<open>Perceptron\<close>

text \<open>
  \<^verbatim>\<open>
  for word_idx in features:
      perceptron_classifier.weight_vector[word_idx] += alpha * features[word_idx]
  \<close>
  and the same loop with \<^verbatim>\<open>-=\<close>.
\<close>

fun perceptron_add :: "real \<Rightarrow> counter \<Rightarrow> real list \<Rightarrow> error + real list" where
  "perceptron_add alpha [] w = Inr w"
| "perceptron_add alpha ((word_idx, c) # fs) w =
     (if word_idx < length w
      then perceptron_add alpha fs (w[word_idx := w ! word_idx + alpha * of_int c])
      else Inl IndexError)"

fun perceptron_sub :: "real \<Rightarrow> counter \<Rightarrow> real list \<Rightarrow> error + real list" where
  "perceptron_sub alpha [] w = Inr w"
| "perceptron_sub alpha ((word_idx, c) # fs) w =
     (if word_idx < length w
      then perceptron_sub alpha fs (w[word_idx := w ! word_idx - alpha * of_int c])
      else Inl IndexError)"

text \<open>
  The body of the loop over the examples in \<^verbatim>\<open>train_perceptron\<close>. The state is the
  indexer of \<^verbatim>\<open>feat_extractor\<close> and the weight vector of the classifier.
  \<^verbatim>\<open>range(n)\<close> is empty for a negative \<open>n\<close>; the last branch is the \<^verbatim>\<open>print\<close>.
\<close>

definition perceptron_example ::
  "extractor \<Rightarrow> real \<Rightarrow> sentiment_example \<Rightarrow> indexer \<times> real list \<Rightarrow> error + indexer \<times> real list" where
  "perceptron_example fe alpha train_ex st =
     (case st of (ix, w) \<Rightarrow>
        (case perceptron_predict fe ix w (words train_ex) of
           Inl e \<Rightarrow> Inl e
         | Inr (predicted, ix0) \<Rightarrow>
             if label train_ex = predicted then Inr (ix0, w)
             else
               (case extract_features fe ix0 (words train_ex) True of
                  Inl e \<Rightarrow> Inl e
                | Inr (features, ix1) \<Rightarrow>
                    let w1 = w @ replicate (nat (int (size_of ix1) - int (length w))) 0;
                        w2 = w1 @ [0]
                    in if label train_ex = 1 then
                         (case perceptron_add alpha features w2 of
                            Inl e \<Rightarrow> Inl e | Inr w3 \<Rightarrow> Inr (ix1, w3))
                       else if label train_ex = 0 then
                         (case perceptron_sub alpha features w2 of
                            Inl e \<Rightarrow> Inl e | Inr w3 \<Rightarrow> Inr (ix1, w3))
                       else Inr (ix1, w2))))"

fun perceptron_pass ::
  "extractor \<Rightarrow> real \<Rightarrow> sentiment_example list \<Rightarrow> indexer \<times> real list \<Rightarrow> error + indexer \<times> real list" where
  "perceptron_pass fe alpha [] st = Inr st"
| "perceptron_pass fe alpha (train_ex # exs) st =
     (case perceptron_example fe alpha train_ex st of
        Inl e \<Rightarrow> Inl e
      | Inr st' \<Rightarrow> perceptron_pass fe alpha exs st')"

text \<open>\<^verbatim>\<open>for e in range(epochs)\<close>: shuffle the list in place, then one pass over it.\<close>

fun perceptron_epochs ::
  "'g random_module \<Rightarrow> extractor \<Rightarrow> real \<Rightarrow> nat \<Rightarrow>
     sentiment_example list \<times> 'g \<times> indexer \<times> real list \<Rightarrow>
     error + sentiment_example list \<times> 'g \<times> indexer \<times> real list" where
  "perceptron_epochs R fe alpha 0 st = Inr st"
| "perceptron_epochs R fe alpha (Suc n) (train_exs, g, ix, w) =
     (case shuffle R train_exs g of (train_exs', g') \<Rightarrow>
        (case perceptron_pass fe alpha train_exs' (ix, w) of
           Inl e \<Rightarrow> Inl e
         | Inr (ix', w') \<Rightarrow> perceptron_epochs R fe alpha n (train_exs', g', ix', w')))"

text \<open>
  \<^verbatim>\<open>train_perceptron(train_exs, feat_extractor)\<close>, called when the global generator is
  in state \<open>g0\<close> and the extractor's indexer is \<open>ix\<close>.
\<close>

definition train_perceptron ::
  "'g random_module \<Rightarrow> 'g \<Rightarrow> sentiment_example list \<Rightarrow> extractor \<Rightarrow> indexer \<Rightarrow> error + 'g trained" where
  "train_perceptron R g0 train_exs fe ix =
     (let g = seed R 10;
          alpha = 0.05;
          epochs = 50;
          w = replicate (size_of ix) 0
      in case perceptron_epochs R fe alpha epochs (train_exs, g, ix, w) of
           Inl e \<Rightarrow> Inl e
         | Inr (train_exs', g', ix', w') \<Rightarrow>
             Inr \<lparr>weight_vector = w', featurizer_indexer = ix',
                  train_exs_after = train_exs', random_state = g'\<rparr>)"

subsection \<open>Logistic regression\<close>

text \<open>
  \<^verbatim>\<open>
  for f in features:
      weight_vector[f] += alpha*(1-lr_classifier.p_1_x(train_ex.words))
  \<close>
  \<^verbatim>\<open>weight_vector\<close> and \<^verbatim>\<open>lr_classifier.weight_vector\<close> are one list object, so the call
  of \<^verbatim>\<open>p_1_x\<close> in the loop body reads the weights as the earlier iterations left them.
  The subscript is evaluated before the right-hand side.
\<close>

fun lr_add ::
  "extractor \<Rightarrow> real \<Rightarrow> string list \<Rightarrow> counter \<Rightarrow> indexer \<times> real list \<Rightarrow> error + indexer \<times> real list" where
  "lr_add fe alpha sentence [] st = Inr st"
| "lr_add fe alpha sentence ((f, c) # fs) (ix, w) =
     (if f < length w then
        (case p_1_x fe ix w sentence of
           Inl e \<Rightarrow> Inl e
         | Inr (p, ix') \<Rightarrow> lr_add fe alpha sentence fs (ix', w[f := w ! f + alpha * (1 - p)]))
      else Inl IndexError)"

fun lr_sub ::
  "extractor \<Rightarrow> real \<Rightarrow> string list \<Rightarrow> counter \<Rightarrow> indexer \<times> real list \<Rightarrow> error + indexer \<times> real list" where
  "lr_sub fe alpha sentence [] st = Inr st"
| "lr_sub fe alpha sentence ((f, c) # fs) (ix, w) =
     (if f < length w then
        (case p_1_neg_x fe ix w sentence of
           Inl e \<Rightarrow> Inl e
         | Inr (p, ix') \<Rightarrow> lr_sub fe alpha sentence fs (ix', w[f := w ! f - alpha * (1 - p)]))
      else Inl IndexError)"

text \<open>The body of the loop over the examples in \<^verbatim>\<open>train_logistic_regression\<close>.\<close>

definition lr_example ::
  "extractor \<Rightarrow> real \<Rightarrow> sentiment_example \<Rightarrow> indexer \<times> real list \<Rightarrow> error + indexer \<times> real list" where
  "lr_example fe alpha train_ex st =
     (case st of (ix, w) \<Rightarrow>
        (case extract_features fe ix (words train_ex) True of
           Inl e \<Rightarrow> Inl e
         | Inr (features, ix1) \<Rightarrow>
             let w1 = w @ replicate (nat (int (size_of ix1) - int (length w))) 0;
                 w2 = w1 @ [0]
             in if label train_ex = 1 then
                  (case lr_predict fe ix1 w2 (words train_ex) of
                     Inl e \<Rightarrow> Inl e
                   | Inr (predicted, ix2) \<Rightarrow>
                       if predicted = 1 then Inr (ix2, w2)
                       else lr_add fe alpha (words train_ex) features (ix2, w2))
                else
                  (case lr_predict fe ix1 w2 (words train_ex) of
                     Inl e \<Rightarrow> Inl e
                   | Inr (predicted, ix2) \<Rightarrow>
                       if predicted = 0 then Inr (ix2, w2)
                       else lr_sub fe alpha (words train_ex) features (ix2, w2))))"

fun lr_pass ::
  "extractor \<Rightarrow> real \<Rightarrow> sentiment_example list \<Rightarrow> indexer \<times> real list \<Rightarrow> error + indexer \<times> real list" where
  "lr_pass fe alpha [] st = Inr st"
| "lr_pass fe alpha (train_ex # exs) st =
     (case lr_example fe alpha train_ex st of
        Inl e \<Rightarrow> Inl e
      | Inr st' \<Rightarrow> lr_pass fe alpha exs st')"

fun lr_epochs ::
  "'g random_module \<Rightarrow> extractor \<Rightarrow> real \<Rightarrow> nat \<Rightarrow>
     sentiment_example list \<times> 'g \<times> indexer \<times> real list \<Rightarrow>
     error + sentiment_example list \<times> 'g \<times> indexer \<times> real list" where
  "lr_epochs R fe alpha 0 st = Inr st"
| "lr_epochs R fe alpha (Suc n) (train_exs, g, ix, w) =
     (case shuffle R train_exs g of (train_exs', g') \<Rightarrow>
        (case lr_pass fe alpha train_exs' (ix, w) of
           Inl e \<Rightarrow> Inl e
         | Inr (ix', w') \<Rightarrow> lr_epochs R fe alpha n (train_exs', g', ix', w')))"

definition train_logistic_regression ::
  "'g random_module \<Rightarrow> 'g \<Rightarrow> sentiment_example list \<Rightarrow> extractor \<Rightarrow> indexer \<Rightarrow> error + 'g trained" where
  "train_logistic_regression R g0 train_exs fe ix =
     (let g = seed R 2324;
          alpha = 0.1;
          epochs = 15;
          w = replicate (size_of ix) 0
      in case lr_epochs R fe alpha epochs (train_exs, g, ix, w) of
           Inl e \<Rightarrow> Inl e
         | Inr (train_exs', g', ix', w') \<Rightarrow>
             Inr \<lparr>weight_vector = w', featurizer_indexer = ix',
                  train_exs_after = train_exs', random_state = g'\<rparr>)"

section \<open>Model selection\<close>





section \<open>Reference notions\<close>

text \<open>
  The score as the spec words it: the dot product \<open>\<Sum> features[i] * weights[i]\<close> over
  the sparse vector. It is compared below with the loop of the code.
\<close>

definition dot_product :: "counter \<Rightarrow> real list \<Rightarrow> real" where
  "dot_product features w = (\<Sum>(f, c) \<leftarrow> features. of_int c * w ! f)"

text \<open>A training example for the runs evaluated below: \<^verbatim>\<open>(["good"], 1)\<close>.\<close>

definition good_ex :: sentiment_example where
  "good_ex = \<lparr>words = [''good''], label = 1\<rparr>"


section \<open>Extraction on short sentences\<close>

lemma ngrams_empty: "ngrams fe [] = []"
  by (cases fe) (simp_all add: ngrams_def unigrams_def bigrams_def trigrams_def)

lemma ngrams_single: "fe \<noteq> Unigram \<Longrightarrow> ngrams fe [t] = []"
  by (cases fe) (simp_all add: ngrams_def bigrams_def trigrams_def)

lemma extract_features_empty: "extract_features fe ix [] add = Inr ([], ix)"
  by (simp add: extract_features_def ngrams_empty)

text \<open>
  Claim C5 (extractor arity). From an empty indexer and in growth mode, the sentence
  \<^verbatim>\<open>["I","love","it"]\<close> gives three unigram features of value 1, the two bigram
  features "i love" and "love it", and the one trigram feature "i love it"; a sentence
  of one token gives the bigram and the trigram extractor the empty vector, with no
  error, whatever the indexer and the mode.
\<close>

theorem extractor_arity:
  "extract_features Unigram [] [''I'', ''love'', ''it''] True
     = Inr ([(0, 1), (1, 1), (2, 1)], [''i'', ''love'', ''it''])
   \<and> extract_features Bigram [] [''I'', ''love'', ''it''] True
     = Inr ([(0, 1), (1, 1)], [''i love'', ''love it''])
   \<and> extract_features Better [] [''I'', ''love'', ''it''] True
     = Inr ([(0, 1)], [''i love it''])
   \<and> extract_features Bigram ix [t] add = Inr ([], ix)
   \<and> extract_features Better ix [t] add = Inr ([], ix)"
proof -
  have u: "extract_features Unigram [] [''I'', ''love'', ''it''] True
     = Inr ([(0, 1), (1, 1), (2, 1)], [''i'', ''love'', ''it''])"
    by code_simp
  have b: "extract_features Bigram [] [''I'', ''love'', ''it''] True
     = Inr ([(0, 1), (1, 1)], [''i love'', ''love it''])"
    by code_simp
  have t: "extract_features Better [] [''I'', ''love'', ''it''] True
     = Inr ([(0, 1)], [''i love it''])"
    by code_simp
  have s: "extract_features Bigram ix [t] add = Inr ([], ix)"
     "extract_features Better ix [t] add = Inr ([], ix)"
    by (simp_all add: extract_features_def ngrams_single)
  from u b t s show ?thesis by simp
qed

text \<open>
  Claim C10 (empty sentence). On the empty token sequence every extractor returns the
  empty feature vector, the perceptron predicts 0, \<^verbatim>\<open>p_1_x\<close> is exactly 1/2 and the
  logistic-regression classifier predicts 0, whatever the weight vector.
\<close>

theorem empty_sentence:
  "extract_features fe ix [] add = Inr ([], ix)
   \<and> perceptron_predict fe ix w [] = Inr (0, ix)
   \<and> p_1_x fe ix w [] = Inr (1 / 2, ix)
   \<and> lr_predict fe ix w [] = Inr (0, ix)"
  by (simp add: extract_features_empty perceptron_predict_def p_1_x_def lr_predict_def
      score_of_def)

section \<open>Determinism of training\<close>

text \<open>
  Claim C9 (deterministic training). Both trainers seed the generator before the first
  shuffle, so what they return (weights, indexer, order of the examples, generator
  state) is a function of the training set and of the starting extractor alone: it does
  not depend on the state \<open>g\<close> in which the call finds the global generator.
\<close>

theorem training_deterministic:
  "train_perceptron R g train_exs fe ix = train_perceptron R g' train_exs fe ix
   \<and> train_logistic_regression R g train_exs fe ix
       = train_logistic_regression R g' train_exs fe ix"
  by (simp add: train_perceptron_def train_logistic_regression_def)

section \<open>Lemmas on the indexer, counters and the scoring loop\<close>

subsection \<open>The indexer\<close>

lemma index_of_mem:
  "k \<in> set ix \<Longrightarrow> \<exists>i. index_of ix k = Inr i \<and> i < length ix \<and> ix ! i = k"
  by (induction ix) auto

lemma index_of_absent: "k \<notin> set ix \<Longrightarrow> index_of ix k = Inl LookupError"
  by (induction ix) auto

lemma index_of_Inr:
  "index_of ix k = Inr i \<Longrightarrow> i < length ix \<and> ix ! i = k"
  by (induction ix arbitrary: i) (auto split: if_splits sum.splits)

lemma index_of_append:
  "index_of ix k = Inr i \<Longrightarrow> index_of (ix @ ys) k = Inr i"
  by (induction ix arbitrary: i) (auto split: if_splits sum.splits)

lemma index_of_fresh: "k \<notin> set ix \<Longrightarrow> index_of (ix @ [k]) k = Inr (length ix)"
  by (induction ix) auto

subsection \<open>Counters\<close>

lemma keys_counter_set: "fst ` set (counter_set k v fs) = insert k (fst ` set fs)"
  by (induction k v fs rule: counter_set.induct) auto

lemma values_counter_set: "snd ` set (counter_set k v fs) \<subseteq> insert v (snd ` set fs)"
  by (induction k v fs rule: counter_set.induct) auto

lemma distinct_counter_set:
  "distinct (map fst fs) \<Longrightarrow> distinct (map fst (counter_set k v fs))"
  by (induction k v fs rule: counter_set.induct) (auto simp: keys_counter_set)

subsection \<open>The scoring loop is the dot product\<close>

lemma score_loop_dot:
  "\<forall>(f, c) \<in> set fs. f < length w \<Longrightarrow> score_loop fs w acc = Inr (acc + dot_product fs w)"
  by (induction fs arbitrary: acc) (auto simp: dot_product_def)

lemma score_loop_error:
  "\<not> (\<forall>(f, c) \<in> set fs. f < length w) \<Longrightarrow> score_loop fs w acc = Inl IndexError"
  by (induction fs w acc rule: score_loop.induct) auto

lemma score_of_dot:
  assumes "extract_features fe ix sentence False = Inr (features, ix')"
    and "\<forall>(f, c) \<in> set features. f < length w"
  shows "score_of fe ix w sentence = Inr (dot_product features w, ix')"
  using assms by (simp add: score_of_def score_loop_dot)

subsection \<open>Extraction with a frozen indexer\<close>

lemma feature_step_False:
  "feature_step False g (fs, ix) =
     (case index_of ix g of Inl e \<Rightarrow> Inr (fs, ix) | Inr i \<Rightarrow> Inr (counter_set i 1 fs, ix))"
proof (cases "g \<in> set ix")
  case True
  then obtain i where "index_of ix g = Inr i" using index_of_mem by blast
  with True show ?thesis by (simp add: feature_step_def contains_def)
next
  case False
  then show ?thesis by (simp add: feature_step_def contains_def index_of_absent)
qed

lemma feature_loop_False:
  "\<exists>fs'. feature_loop False gs (fs, ix) = Inr (fs', ix)
     \<and> fst ` set fs' = fst ` set fs \<union> {i. \<exists>g \<in> set gs. index_of ix g = Inr i}
     \<and> snd ` set fs' \<subseteq> insert 1 (snd ` set fs)"
proof (induction gs arbitrary: fs)
  case Nil
  then show ?case by auto
next
  case (Cons g gs)
  show ?case
  proof (cases "index_of ix g")
    case (Inl e)
    from Cons.IH [of fs] obtain fs' where
      "feature_loop False gs (fs, ix) = Inr (fs', ix)"
      "fst ` set fs' = fst ` set fs \<union> {i. \<exists>g \<in> set gs. index_of ix g = Inr i}"
      "snd ` set fs' \<subseteq> insert 1 (snd ` set fs)" by blast
    with Inl show ?thesis by (auto simp: feature_step_False)
  next
    case (Inr i)
    from Cons.IH [of "counter_set i 1 fs"] obtain fs' where
      a: "feature_loop False gs (counter_set i 1 fs, ix) = Inr (fs', ix)"
      and b: "fst ` set fs' = fst ` set (counter_set i 1 fs) \<union> {i. \<exists>g \<in> set gs. index_of ix g = Inr i}"
      and c: "snd ` set fs' \<subseteq> insert 1 (snd ` set (counter_set i 1 fs))" by blast
    have "feature_loop False (g # gs) (fs, ix) = Inr (fs', ix)"
      using Inr a by (simp add: feature_step_False)
    moreover have "fst ` set fs' = fst ` set fs \<union> {j. \<exists>g' \<in> set (g # gs). index_of ix g' = Inr j}"
      using b Inr by (auto simp: keys_counter_set)
    moreover have "snd ` set fs' \<subseteq> insert 1 (snd ` set fs)"
      using c values_counter_set [of i 1 fs] by auto
    ultimately show ?thesis by blast
  qed
qed

lemma extract_features_False_keys:
  "\<exists>features. extract_features fe ix sentence False = Inr (features, ix)
     \<and> (\<forall>k \<in> fst ` set features. k < length ix)"
proof -
  from feature_loop_False [of "ngrams fe sentence" "[]" ix] obtain fs' where
    a: "feature_loop False (ngrams fe sentence) ([], ix) = Inr (fs', ix)"
    and b: "fst ` set fs' = {i. \<exists>g \<in> set (ngrams fe sentence). index_of ix g = Inr i}"
    by auto
  have "\<forall>k \<in> fst ` set fs'. k < length ix"
    unfolding b using index_of_Inr by blast
  with a show ?thesis unfolding extract_features_def by blast
qed

text \<open>
  Claim C7 (unknown features are dropped). With \<^verbatim>\<open>add_to_indexer=False\<close> every
  extractor returns without an error and leaves the indexer as it was; the keys of the
  vector it returns are exactly the indices of those n-grams of the sentence that the
  indexer holds, so an n-gram the indexer does not hold adds no key; every value is 1.
\<close>

theorem unknown_feature_dropping:
  "\<exists>features. extract_features fe ix sentence False = Inr (features, ix)
     \<and> fst ` set features = {i. \<exists>g \<in> set (ngrams fe sentence). index_of ix g = Inr i}
     \<and> (\<forall>(i, c) \<in> set features. i < size_of ix \<and> ix ! i \<in> set (ngrams fe sentence) \<and> c = 1)"
proof -
  from feature_loop_False [of "ngrams fe sentence" "[]" ix] obtain fs' where
    a: "feature_loop False (ngrams fe sentence) ([], ix) = Inr (fs', ix)"
    and b: "fst ` set fs' = {i. \<exists>g \<in> set (ngrams fe sentence). index_of ix g = Inr i}"
    and c: "snd ` set fs' \<subseteq> {1}" by auto
  have "i < size_of ix \<and> ix ! i \<in> set (ngrams fe sentence) \<and> c = 1" if "(i, c) \<in> set fs'" for i c
  proof -
    from that b have "i \<in> {i. \<exists>g \<in> set (ngrams fe sentence). index_of ix g = Inr i}"
      by (metis fst_conv image_eqI)
    then obtain g where "g \<in> set (ngrams fe sentence)" "index_of ix g = Inr i" by blast
    moreover from that c have "c = 1" by (metis image_eqI singletonD snd_conv subsetD)
    ultimately show ?thesis using index_of_Inr [of ix g i] by (simp add: size_of_def)
  qed
  with a b show ?thesis unfolding extract_features_def by blast
qed

theorem unknown_feature_dropping_witness:
  "extract_features Unigram [''good''] [''Good'', ''movie''] False = Inr ([(0, 1)], [''good''])"
proof -
  from unknown_feature_dropping [of Unigram "[''good'']" "[''Good'', ''movie'']"]
  obtain features where
    "extract_features Unigram [''good''] [''Good'', ''movie''] False = Inr (features, [''good''])"
    by blast
  moreover have "extract_features Unigram [''good''] [''Good'', ''movie''] False = Inr ([(0, 1)], [''good''])"
    by code_simp
  ultimately show ?thesis by simp
qed

section \<open>Classifiers\<close>

text \<open>
  Claim C6 (perceptron prediction). When the feature indices lie within the weight
  vector, \<^verbatim>\<open>PerceptronClassifier.predict\<close> returns 1 if the dot product of the
  inference-mode feature vector with the weights is positive and 0 otherwise, so a
  score of 0 gives class 0.
\<close>

theorem perceptron_predict_dot:
  assumes "extract_features fe ix sentence False = Inr (features, ix')"
    and "\<forall>(f, c) \<in> set features. f < length w"
  shows "perceptron_predict fe ix w sentence
           = Inr (if dot_product features w > 0 then 1 else 0, ix')"
  using score_of_dot [OF assms] by (simp add: perceptron_predict_def)

theorem perceptron_predict_dot_witness:
  "extract_features Unigram [''good'', ''bad''] [''good'', ''bad''] False
     = Inr ([(0, 1), (1, 1)], [''good'', ''bad''])
   \<and> dot_product [(0, 1), (1, 1)] [1 / 20, - 1 / 20] = 0
   \<and> perceptron_predict Unigram [''good'', ''bad''] [1 / 20, - 1 / 20] [''good'', ''bad'']
     = Inr (0, [''good'', ''bad''])"
proof -
  have h1: "extract_features Unigram [''good'', ''bad''] [''good'', ''bad''] False
     = Inr ([(0, 1), (1, 1)], [''good'', ''bad''])"
    by code_simp
  have h2: "\<forall>(f, c) \<in> set [(0, 1), (1, 1)]. f < length [1 / 20, - 1 / 20 :: real]"
    by simp
  have d: "dot_product [(0, 1), (1, 1)] [1 / 20, - 1 / 20] = 0"
    by (simp add: dot_product_def)
  from perceptron_predict_dot [OF h1 h2] d h1 show ?thesis by simp
qed

text \<open>
  Claim C8 (the two probabilities). When the feature indices lie within the weight
  vector, \<^verbatim>\<open>p_1_x\<close> is \<open>exp s / (1 + exp s)\<close> and \<^verbatim>\<open>p_1_neg_x\<close> is
  \<open>1 / (1 + exp s)\<close> for the same score \<open>s\<close>, the dot product of the inference-mode
  feature vector with the weights, and over the reals the two sum to 1.
\<close>

theorem lr_probabilities:
  assumes "extract_features fe ix sentence False = Inr (features, ix')"
    and "\<forall>(f, c) \<in> set features. f < length w"
  shows "p_1_x fe ix w sentence
           = Inr (exp (dot_product features w) / (1 + exp (dot_product features w)), ix')
       \<and> p_1_neg_x fe ix w sentence = Inr (1 / (1 + exp (dot_product features w)), ix')
       \<and> exp (dot_product features w) / (1 + exp (dot_product features w))
           + 1 / (1 + exp (dot_product features w)) = 1"
proof -
  have "1 + exp (dot_product features w) \<noteq> 0"
    using exp_gt_zero [of "dot_product features w"] by linarith
  then have "exp (dot_product features w) / (1 + exp (dot_product features w))
           + 1 / (1 + exp (dot_product features w)) = 1"
    by (simp add: add_divide_distrib [symmetric] add.commute)
  then show ?thesis
    using score_of_dot [OF assms] by (simp add: p_1_x_def p_1_neg_x_def)
qed

theorem lr_probabilities_witness:
  "p_1_x Unigram [''good''] [1 / 20] [''good'']
     = Inr (exp (1 / 20) / (1 + exp (1 / 20)), [''good''])
   \<and> p_1_neg_x Unigram [''good''] [1 / 20] [''good'']
     = Inr (1 / (1 + exp (1 / 20)), [''good''])"
proof -
  have h1: "extract_features Unigram [''good''] [''good''] False = Inr ([(0, 1)], [''good''])"
    by code_simp
  have h2: "\<forall>(f, c) \<in> set [(0, 1)]. f < length [1 / 20 :: real]"
    by simp
  have d: "dot_product [(0, 1)] [1 / 20] = 1 / 20"
    by (simp add: dot_product_def)
  from lr_probabilities [OF h1 h2] d show ?thesis by simp
qed

section \<open>Training never leaves the weight vector short\<close>

subsection \<open>Extraction in growth mode\<close>

lemma feature_step_True:
  "feature_step True g (fs, ix) =
     (case index_of ix g of
        Inr i \<Rightarrow> Inr (counter_set i 1 fs, ix)
      | Inl e \<Rightarrow> Inr (counter_set (length ix) 1 fs, ix @ [g]))"
proof (cases "g \<in> set ix")
  case True
  then obtain i where "index_of ix g = Inr i" using index_of_mem by blast
  with True show ?thesis by (simp add: feature_step_def contains_def)
next
  case False
  then show ?thesis
    by (simp add: feature_step_def contains_def index_of_absent add_and_get_index_def)
qed

lemma feature_loop_True:
  "\<forall>k \<in> fst ` set fs. k < length ix \<Longrightarrow>
   \<exists>fs' ys. feature_loop True gs (fs, ix) = Inr (fs', ix @ ys)
     \<and> (\<forall>k \<in> fst ` set fs'. k < length (ix @ ys))"
proof (induction gs arbitrary: fs ix)
  case Nil
  then show ?case by auto
next
  case (Cons g gs)
  show ?case
  proof (cases "index_of ix g")
    case (Inr i)
    then have "i < length ix" using index_of_Inr by blast
    with Cons.prems have "\<forall>k \<in> fst ` set (counter_set i 1 fs). k < length ix"
      by (simp add: keys_counter_set)
    from Cons.IH [OF this] Inr show ?thesis by (simp add: feature_step_True)
  next
    case (Inl e)
    from Cons.prems have "\<forall>k \<in> fst ` set (counter_set (length ix) 1 fs). k < length (ix @ [g])"
      by (auto simp: keys_counter_set)
    from Cons.IH [OF this] obtain fs' ys where
      "feature_loop True gs (counter_set (length ix) 1 fs, ix @ [g]) = Inr (fs', (ix @ [g]) @ ys)"
      "\<forall>k \<in> fst ` set fs'. k < length ((ix @ [g]) @ ys)" by blast
    then have "feature_loop True (g # gs) (fs, ix) = Inr (fs', ix @ (g # ys))
        \<and> (\<forall>k \<in> fst ` set fs'. k < length (ix @ (g # ys)))"
      using Inl by (simp add: feature_step_True)
    then show ?thesis by blast
  qed
qed

lemma extract_features_True:
  "\<exists>features ix'. extract_features fe ix sentence True = Inr (features, ix')
     \<and> length ix \<le> length ix' \<and> (\<forall>k \<in> fst ` set features. k < length ix')"
proof -
  from feature_loop_True [of "[]" ix "ngrams fe sentence"] obtain fs' ys where
    "feature_loop True (ngrams fe sentence) ([], ix) = Inr (fs', ix @ ys)"
    "\<forall>k \<in> fst ` set fs'. k < length (ix @ ys)" by auto
  then show ?thesis unfolding extract_features_def
    by (intro exI [of _ fs'] exI [of _ "ix @ ys"]) simp
qed

subsection \<open>The keys of an extracted vector are distinct\<close>

lemma feature_step_distinct:
  "feature_step add g (fs, ix) = Inr (fs', ix') \<Longrightarrow> distinct (map fst fs) \<Longrightarrow>
   distinct (map fst fs')"
  by (auto simp: feature_step_def add_and_get_index_def distinct_counter_set
      split: if_splits sum.splits)

lemma feature_loop_distinct:
  "feature_loop add gs (fs, ix) = Inr (fs', ix') \<Longrightarrow> distinct (map fst fs) \<Longrightarrow>
   distinct (map fst fs')"
proof (induction gs arbitrary: fs ix)
  case Nil
  then show ?case by simp
next
  case (Cons g gs)
  from Cons.prems(1) obtain fs1 ix1 where
    s: "feature_step add g (fs, ix) = Inr (fs1, ix1)"
    and r: "feature_loop add gs (fs1, ix1) = Inr (fs', ix')"
    by (auto split: sum.splits)
  from feature_step_distinct [OF s Cons.prems(2)] have "distinct (map fst fs1)" .
  from Cons.IH [OF r this] show ?case .
qed

lemma extract_features_distinct:
  "extract_features fe ix sentence add = Inr (features, ix') \<Longrightarrow> distinct (map fst features)"
  unfolding extract_features_def using feature_loop_distinct [of add _ "[]"] by simp

subsection \<open>Scoring with a weight vector that covers the indexer\<close>

lemma score_of_covered:
  assumes "length ix \<le> length w"
  shows "\<exists>s. score_of fe ix w sentence = Inr (s, ix)"
proof -
  from extract_features_False_keys [of fe ix sentence] obtain features where
    a: "extract_features fe ix sentence False = Inr (features, ix)"
    and b: "\<forall>k \<in> fst ` set features. k < length ix"
    by blast
  from b assms have "\<forall>(f, c) \<in> set features. f < length w"
    by fastforce
  from score_of_dot [OF a this] show ?thesis by blast
qed


lemma p_1_x_covered:
  "length ix \<le> length w \<Longrightarrow> \<exists>p. p_1_x fe ix w sentence = Inr (p, ix)"
  using score_of_covered [of ix w fe sentence] by (auto simp: p_1_x_def)

lemma p_1_neg_x_covered:
  "length ix \<le> length w \<Longrightarrow> \<exists>p. p_1_neg_x fe ix w sentence = Inr (p, ix)"
  using score_of_covered [of ix w fe sentence] by (auto simp: p_1_neg_x_def)

lemma lr_predict_covered:
  "length ix \<le> length w \<Longrightarrow> \<exists>p. lr_predict fe ix w sentence = Inr (p, ix)"
  using p_1_x_covered [of ix w fe sentence] by (auto simp: lr_predict_def)

subsection \<open>The update loops\<close>



lemma lr_add_covered:
  "length ix \<le> length w \<Longrightarrow> \<forall>k \<in> fst ` set fs. k < length w \<Longrightarrow>
   \<exists>w'. lr_add fe alpha sentence fs (ix, w) = Inr (ix, w') \<and> length w' = length w"
proof (induction fs arbitrary: w)
  case Nil
  then show ?case by simp
next
  case (Cons fc fs)
  obtain f c where fc: "fc = (f, c)" by (cases fc)
  from Cons.prems fc have f: "f < length w" by simp
  from p_1_x_covered [OF Cons.prems(1)] obtain p where
    p: "p_1_x fe ix w sentence = Inr (p, ix)" by blast
  have "\<exists>w'. lr_add fe alpha sentence fs (ix, w[f := w ! f + alpha * (1 - p)]) = Inr (ix, w')
          \<and> length w' = length (w[f := w ! f + alpha * (1 - p)])"
    using Cons.prems by (intro Cons.IH) auto
  with f p fc show ?case by auto
qed

lemma lr_sub_covered:
  "length ix \<le> length w \<Longrightarrow> \<forall>k \<in> fst ` set fs. k < length w \<Longrightarrow>
   \<exists>w'. lr_sub fe alpha sentence fs (ix, w) = Inr (ix, w') \<and> length w' = length w"
proof (induction fs arbitrary: w)
  case Nil
  then show ?case by simp
next
  case (Cons fc fs)
  obtain f c where fc: "fc = (f, c)" by (cases fc)
  from Cons.prems fc have f: "f < length w" by simp
  from p_1_neg_x_covered [OF Cons.prems(1)] obtain p where
    p: "p_1_neg_x fe ix w sentence = Inr (p, ix)" by blast
  have "\<exists>w'. lr_sub fe alpha sentence fs (ix, w[f := w ! f - alpha * (1 - p)]) = Inr (ix, w')
          \<and> length w' = length (w[f := w ! f - alpha * (1 - p)])"
    using Cons.prems by (intro Cons.IH) auto
  with f p fc show ?case by auto
qed

subsection \<open>One example\<close>



subsection \<open>One pass\<close>



subsection \<open>The shuffle permutes\<close>



subsection \<open>All epochs\<close>






section \<open>The logistic-regression update\<close>

subsection \<open>Real arithmetic of the sigmoid\<close>

lemma half_sigmoid:
  fixes e :: real
  assumes "0 < e" and "e / (1 + e) = 1 / 2"
  shows "e = 1"
proof -
  from assms(1) have "1 + e \<noteq> 0" by simp
  with assms(2) have "2 * e = 1 + e" by (simp add: field_simps)
  then show ?thesis by simp
qed

lemma sigmoid_gt_half:
  fixes s :: real
  shows "1 / 2 < exp s / (1 + exp s) \<longleftrightarrow> 0 < s"
proof -
  have pos: "0 < 1 + exp s" using exp_gt_zero [of s] by linarith
  have "1 / 2 < exp s / (1 + exp s) \<longleftrightarrow> 1 + exp s < 2 * exp s"
    using pos by (simp add: field_simps)
  also have "\<dots> \<longleftrightarrow> 1 < exp s" by auto
  also have "\<dots> \<longleftrightarrow> 0 < s" by simp
  finally show ?thesis .
qed

lemma tenth_cancel:
  fixes t :: real
  assumes "1 / 10 * (1 - t) = 1 / 10 * (1 - 1 / 2)"
  shows "t = 1 / 2"
  using assms by simp

subsection \<open>The update loops touch the active features only\<close>

lemma lr_add_frame:
  "lr_add fe alpha s fs (ix, w) = Inr (ix', w') \<Longrightarrow> i \<notin> fst ` set fs \<Longrightarrow> w' ! i = w ! i"
proof (induction fs arbitrary: ix w)
  case Nil
  then show ?case by simp
next
  case (Cons fc fs)
  obtain f c where fc: "fc = (f, c)" by (cases fc)
  from Cons.prems fc have f: "f < length w" "i \<noteq> f" "i \<notin> fst ` set fs"
    by (auto split: if_splits)
  from Cons.prems(1) fc f obtain p ix0 where
    p: "p_1_x fe ix w s = Inr (p, ix0)"
    and r: "lr_add fe alpha s fs (ix0, w[f := w ! f + alpha * (1 - p)]) = Inr (ix', w')"
    by (auto split: sum.splits)
  from Cons.IH [OF r f(3)] f(2) show ?case by simp
qed

lemma lr_sub_frame:
  "lr_sub fe alpha s fs (ix, w) = Inr (ix', w') \<Longrightarrow> i \<notin> fst ` set fs \<Longrightarrow> w' ! i = w ! i"
proof (induction fs arbitrary: ix w)
  case Nil
  then show ?case by simp
next
  case (Cons fc fs)
  obtain f c where fc: "fc = (f, c)" by (cases fc)
  from Cons.prems fc have f: "f < length w" "i \<noteq> f" "i \<notin> fst ` set fs"
    by (auto split: if_splits)
  from Cons.prems(1) fc f obtain p ix0 where
    p: "p_1_neg_x fe ix w s = Inr (p, ix0)"
    and r: "lr_sub fe alpha s fs (ix0, w[f := w ! f - alpha * (1 - p)]) = Inr (ix', w')"
    by (auto split: sum.splits)
  from Cons.IH [OF r f(3)] f(2) show ?case by simp
qed

lemma lr_add_nth:
  "distinct (map fst fs) \<Longrightarrow> k < length fs \<Longrightarrow>
   lr_add fe alpha s fs (ix, w) = Inr (ix', w') \<Longrightarrow>
   \<exists>ix_k w_k p ix_p. lr_add fe alpha s (take k fs) (ix, w) = Inr (ix_k, w_k)
     \<and> p_1_x fe ix_k w_k s = Inr (p, ix_p)
     \<and> w' ! fst (fs ! k) = w ! fst (fs ! k) + alpha * (1 - p)"
proof (induction fs arbitrary: ix w k)
  case Nil
  then show ?case by simp
next
  case (Cons fc fs)
  obtain f c where fc: "fc = (f, c)" by (cases fc)
  from Cons.prems(3) fc have f: "f < length w" by (auto split: if_splits)
  from Cons.prems(3) fc f obtain p0 ix0 where
    p0: "p_1_x fe ix w s = Inr (p0, ix0)"
    and r: "lr_add fe alpha s fs (ix0, w[f := w ! f + alpha * (1 - p0)]) = Inr (ix', w')"
    by (auto split: sum.splits)
  from Cons.prems(1) fc have d: "distinct (map fst fs)" and nf: "f \<notin> fst ` set fs" by auto
  show ?case
  proof (cases k)
    case 0
    from lr_add_frame [OF r nf] f have "w' ! f = w ! f + alpha * (1 - p0)" by simp
    with 0 p0 fc show ?thesis by simp
  next
    case (Suc k')
    with Cons.prems(2) have k': "k' < length fs" by simp
    from Cons.IH [OF d k' r] obtain ix_k w_k p ix_p where
      a: "lr_add fe alpha s (take k' fs) (ix0, w[f := w ! f + alpha * (1 - p0)]) = Inr (ix_k, w_k)"
      and b: "p_1_x fe ix_k w_k s = Inr (p, ix_p)"
      and c: "w' ! fst (fs ! k') = (w[f := w ! f + alpha * (1 - p0)]) ! fst (fs ! k') + alpha * (1 - p)"
      by blast
    from k' nf have "fst (fs ! k') \<noteq> f" by (metis image_eqI nth_mem)
    with c have "w' ! fst (fs ! k') = w ! fst (fs ! k') + alpha * (1 - p)" by simp
    moreover have "lr_add fe alpha s (take k (fc # fs)) (ix, w) = Inr (ix_k, w_k)"
      using Suc fc f p0 a by simp
    ultimately show ?thesis using b Suc by auto
  qed
qed

lemma lr_sub_nth:
  "distinct (map fst fs) \<Longrightarrow> k < length fs \<Longrightarrow>
   lr_sub fe alpha s fs (ix, w) = Inr (ix', w') \<Longrightarrow>
   \<exists>ix_k w_k p ix_p. lr_sub fe alpha s (take k fs) (ix, w) = Inr (ix_k, w_k)
     \<and> p_1_neg_x fe ix_k w_k s = Inr (p, ix_p)
     \<and> w' ! fst (fs ! k) = w ! fst (fs ! k) - alpha * (1 - p)"
proof (induction fs arbitrary: ix w k)
  case Nil
  then show ?case by simp
next
  case (Cons fc fs)
  obtain f c where fc: "fc = (f, c)" by (cases fc)
  from Cons.prems(3) fc have f: "f < length w" by (auto split: if_splits)
  from Cons.prems(3) fc f obtain p0 ix0 where
    p0: "p_1_neg_x fe ix w s = Inr (p0, ix0)"
    and r: "lr_sub fe alpha s fs (ix0, w[f := w ! f - alpha * (1 - p0)]) = Inr (ix', w')"
    by (auto split: sum.splits)
  from Cons.prems(1) fc have d: "distinct (map fst fs)" and nf: "f \<notin> fst ` set fs" by auto
  show ?case
  proof (cases k)
    case 0
    from lr_sub_frame [OF r nf] f have "w' ! f = w ! f - alpha * (1 - p0)" by simp
    with 0 p0 fc show ?thesis by simp
  next
    case (Suc k')
    with Cons.prems(2) have k': "k' < length fs" by simp
    from Cons.IH [OF d k' r] obtain ix_k w_k p ix_p where
      a: "lr_sub fe alpha s (take k' fs) (ix0, w[f := w ! f - alpha * (1 - p0)]) = Inr (ix_k, w_k)"
      and b: "p_1_neg_x fe ix_k w_k s = Inr (p, ix_p)"
      and c: "w' ! fst (fs ! k') = (w[f := w ! f - alpha * (1 - p0)]) ! fst (fs ! k') - alpha * (1 - p)"
      by blast
    from k' nf have "fst (fs ! k') \<noteq> f" by (metis image_eqI nth_mem)
    with c have "w' ! fst (fs ! k') = w ! fst (fs ! k') - alpha * (1 - p)" by simp
    moreover have "lr_sub fe alpha s (take k (fc # fs)) (ix, w) = Inr (ix_k, w_k)"
      using Suc fc f p0 a by simp
    ultimately show ?thesis using b Suc by auto
  qed
qed

subsection \<open>A sentence of two known words\<close>

lemma extract_good_film:
  "extract_features Unigram [''good'', ''film''] [''good'', ''film''] False
     = Inr ([(0, 1), (1, 1)], [''good'', ''film''])"
  by code_simp

lemma extract_good_film_grow:
  "extract_features Unigram [] [''good'', ''film''] True
     = Inr ([(0, 1), (1, 1)], [''good'', ''film''])"
  by code_simp

lemma p_1_x_good_film:
  "p_1_x Unigram [''good'', ''film''] [a, b, c] [''good'', ''film'']
     = Inr (exp (a + b) / (1 + exp (a + b)), [''good'', ''film''])"
  by (simp add: p_1_x_def score_of_def extract_good_film)

lemma p_1_neg_x_good_film:
  "p_1_neg_x Unigram [''good'', ''film''] [a, b, c] [''good'', ''film'']
     = Inr (1 / (1 + exp (a + b)), [''good'', ''film''])"
  by (simp add: p_1_neg_x_def score_of_def extract_good_film)

lemma lr_add_good_film:
  "lr_add Unigram (1 / 10) [''good'', ''film''] [(0, 1), (1, 1)] ([''good'', ''film''], [0, 0, 0])
     = Inr ([''good'', ''film''],
            [1 / 20, 1 / 10 * (1 - exp (1 / 20) / (1 + exp (1 / 20))), 0])"
  by (simp add: p_1_x_good_film)

text \<open>
  Claim C2 (logistic-regression increments), as amended. The loop re-evaluates
  \<^verbatim>\<open>p_1_x\<close> (label 1) or \<^verbatim>\<open>p_1_neg_x\<close> (label 0) for every active feature, on the
  weight vector as the increments of the earlier features of the same example have left
  it. For features with distinct indices, the weight of the \<open>k\<close>-th active feature ends
  up changed by \<open>alpha * (1 - p)\<close>, added for label 1 and subtracted for label 0, where
  \<open>p\<close> is the probability on the weights after the first \<open>k\<close> increments; only for
  the first active feature (\<open>k = 0\<close>) is that the probability of the pre-update
  weights. The count is no factor of the increment.
\<close>

theorem lr_update_increments:
  assumes "distinct (map fst features)" and "k < length features"
  shows "(lr_add fe alpha sentence features (ix, w) = Inr (ix', w') \<longrightarrow>
            (\<exists>ix_k w_k p ix_p.
                lr_add fe alpha sentence (take k features) (ix, w) = Inr (ix_k, w_k)
              \<and> p_1_x fe ix_k w_k sentence = Inr (p, ix_p)
              \<and> w' ! fst (features ! k) = w ! fst (features ! k) + alpha * (1 - p)))
       \<and> (lr_sub fe alpha sentence features (ix, w) = Inr (ix', w') \<longrightarrow>
            (\<exists>ix_k w_k p ix_p.
                lr_sub fe alpha sentence (take k features) (ix, w) = Inr (ix_k, w_k)
              \<and> p_1_neg_x fe ix_k w_k sentence = Inr (p, ix_p)
              \<and> w' ! fst (features ! k) = w ! fst (features ! k) - alpha * (1 - p)))"
  using lr_add_nth [OF assms] lr_sub_nth [OF assms] by blast

theorem lr_update_increments_witness:
  "lr_add Unigram (1 / 10) [''good'', ''film''] [(0, 1), (1, 1)] ([''good'', ''film''], [0, 0, 0])
     = Inr ([''good'', ''film''],
            [1 / 20, 1 / 10 * (1 - exp (1 / 20) / (1 + exp (1 / 20))), 0])
   \<and> (\<exists>ix_k w_k p ix_p.
         lr_add Unigram (1 / 10) [''good'', ''film''] [(0, 1)]
           ([''good'', ''film''], [0, 0, 0]) = Inr (ix_k, w_k)
       \<and> p_1_x Unigram ix_k w_k [''good'', ''film''] = Inr (p, ix_p)
       \<and> 1 / 10 * (1 - exp (1 / 20) / (1 + exp (1 / 20))) = 0 + 1 / 10 * (1 - p))"
proof -
  let ?fs = "[(0 :: nat, 1 :: int), (1, 1)]"
  let ?w' = "[1 / 20, 1 / 10 * (1 - exp (1 / 20) / (1 + exp (1 / 20))), 0 :: real]"
  have d: "distinct (map fst ?fs)" by simp
  have k: "(1 :: nat) < length ?fs" by simp
  have e: "lr_add Unigram (1 / 10) [''good'', ''film''] ?fs ([''good'', ''film''], [0, 0, 0])
     = Inr ([''good'', ''film''], ?w')"
    by (rule lr_add_good_film)
  from lr_update_increments [OF d k, of Unigram "1 / 10" "[''good'', ''film'']"
      "[''good'', ''film'']" "[0, 0, 0]" "[''good'', ''film'']" ?w'] e
  obtain ix_k w_k p ix_p where
    a: "lr_add Unigram (1 / 10) [''good'', ''film''] (take 1 ?fs)
           ([''good'', ''film''], [0, 0, 0]) = Inr (ix_k, w_k)"
    and b: "p_1_x Unigram ix_k w_k [''good'', ''film''] = Inr (p, ix_p)"
    and c: "?w' ! fst (?fs ! 1) = [0, 0, 0] ! fst (?fs ! 1) + 1 / 10 * (1 - p)"
    by blast
  from a have a': "lr_add Unigram (1 / 10) [''good'', ''film''] [(0, 1)]
           ([''good'', ''film''], [0, 0, 0]) = Inr (ix_k, w_k)"
    by simp
  from c have c': "1 / 10 * (1 - exp (1 / 20) / (1 + exp (1 / 20))) = 0 + 1 / 10 * (1 - p)"
    by simp
  from e a' b c' show ?thesis by blast
qed

text \<open>
  The claim as stated fails on the first example of a training run: from an empty
  indexer, the example \<^verbatim>\<open>(["good","film"], 1)\<close> has the pre-update probability 1/2,
  and the second feature is not incremented by \<open>alpha * (1 - 1/2)\<close>.
\<close>

theorem lr_update_once_counterexample:
  "p_1_x Unigram [''good'', ''film''] [0, 0, 0] [''good'', ''film'']
     = Inr (1 / 2, [''good'', ''film''])
   \<and> lr_example Unigram (1 / 10) \<lparr>words = [''good'', ''film''], label = 1\<rparr> ([], [])
     = Inr ([''good'', ''film''],
            [0 + 1 / 10 * (1 - 1 / 2), 0 + 1 / 10 * (1 - exp (1 / 20) / (1 + exp (1 / 20))), 0])
   \<and> 1 / 10 * (1 - exp (1 / 20) / (1 + exp (1 / 20))) \<noteq> (1 / 10 * (1 - 1 / 2) :: real)"
proof -
  have a: "p_1_x Unigram [''good'', ''film''] [0, 0, 0] [''good'', ''film'']
     = Inr (1 / 2, [''good'', ''film''])"
    by (simp add: p_1_x_good_film)
  have b: "lr_example Unigram (1 / 10) \<lparr>words = [''good'', ''film''], label = 1\<rparr> ([], [])
     = Inr ([''good'', ''film''],
            [0 + 1 / 10 * (1 - 1 / 2), 0 + 1 / 10 * (1 - exp (1 / 20) / (1 + exp (1 / 20))), 0])"
    using lr_add_good_film
    by (simp add: lr_example_def extract_good_film_grow size_of_def lr_predict_def
        p_1_x_good_film numeral_2_eq_2)
  have c: "1 / 10 * (1 - exp (1 / 20) / (1 + exp (1 / 20))) \<noteq> (1 / 10 * (1 - 1 / 2) :: real)"
  proof
    assume "1 / 10 * (1 - exp (1 / 20) / (1 + exp (1 / 20))) = (1 / 10 * (1 - 1 / 2) :: real)"
    then have "exp (1 / 20) / (1 + exp (1 / 20)) = (1 / 2 :: real)" by (rule tenth_cancel)
    from half_sigmoid [OF _ this] have "exp (1 / 20 :: real) = 1" by simp
    then show False by simp
  qed
  from a b c show ?thesis by blast
qed

section \<open>Model selection and the configuration errors\<close>




section \<open>What training does to the caller's list\<close>

subsection \<open>Shuffles of four elements with the generator of the standard library\<close>











section \<open>Length of the weight vector against the size of the indexer\<close>

text \<open>
  After the growth loop both trainers run one more \<^verbatim>\<open>weight_vector.append(0)\<close>. So
  an example that reaches the growth code leaves the weight vector one longer than the
  larger of its old length and the size of the indexer.
\<close>

lemma lr_example_grows:
  assumes "length ix \<le> length w"
  shows "\<exists>ix' w'. lr_example fe alpha train_ex (ix, w) = Inr (ix', w')
           \<and> length w' = max (length w) (size_of ix') + 1"
proof -
  from extract_features_True [of fe ix "words train_ex"] obtain features ix1 where
    e: "extract_features fe ix (words train_ex) True = Inr (features, ix1)"
    and k: "\<forall>k \<in> fst ` set features. k < length ix1" by blast
  define w2 where "w2 = w @ replicate (nat (int (size_of ix1) - int (length w))) 0 @ [0]"
  have m: "length w2 = max (length w) (size_of ix1) + 1" by (simp add: w2_def size_of_def)
  then have l': "length ix1 \<le> length w2" by (simp add: size_of_def)
  from m k have k2: "\<forall>k \<in> fst ` set features. k < length w2" by (auto simp: size_of_def)
  from lr_predict_covered [OF l'] obtain p where
    p: "lr_predict fe ix1 w2 (words train_ex) = Inr (p, ix1)" by blast
  from lr_add_covered [OF l' k2, of fe alpha "words train_ex"] obtain wa where
    wa: "lr_add fe alpha (words train_ex) features (ix1, w2) = Inr (ix1, wa)"
      "length wa = length w2" by blast
  from lr_sub_covered [OF l' k2, of fe alpha "words train_ex"] obtain ws where
    ws: "lr_sub fe alpha (words train_ex) features (ix1, w2) = Inr (ix1, ws)"
      "length ws = length w2" by blast
  show ?thesis
    using p e m wa ws
    by (simp add: lr_example_def Let_def w2_def [symmetric])
qed

subsection \<open>Training on the single example \<^verbatim>\<open>(["good"], 1)\<close>\<close>

lemma shuffle_single: "shuffle R [x] g = ([x], g)"
  by (simp add: shuffle_def)

lemma extract_good_known:
  "extract_features Unigram [''good''] [''good''] add = Inr ([(0, 1)], [''good''])"
  by (cases add) (code_simp, code_simp)

lemma extract_good_new:
  "extract_features Unigram [] [''good''] False = Inr ([], [])"
  "extract_features Unigram [] [''good''] True = Inr ([(0, 1)], [''good''])"
  by code_simp+

lemma perceptron_example_first:
  "perceptron_example Unigram (1 / 20) good_ex ([], []) = Inr ([''good''], [1 / 20, 0])"
  by (simp add: perceptron_example_def good_ex_def perceptron_predict_def score_of_def
      extract_good_new size_of_def)

lemma perceptron_example_later:
  "perceptron_example Unigram (1 / 20) good_ex ([''good''], [1 / 20, 0])
     = Inr ([''good''], [1 / 20, 0])"
  by (simp add: perceptron_example_def good_ex_def perceptron_predict_def score_of_def
      extract_good_known)

lemma perceptron_epochs_later:
  "perceptron_epochs R Unigram (1 / 20) n ([good_ex], g, [''good''], [1 / 20, 0])
     = Inr ([good_ex], g, [''good''], [1 / 20, 0])"
  by (induction n) (simp_all add: shuffle_single perceptron_example_later)

lemma perceptron_epochs_good:
  "0 < n \<Longrightarrow>
   perceptron_epochs R Unigram (1 / 20) n ([good_ex], g, [], [])
     = Inr ([good_ex], g, [''good''], [1 / 20, 0])"
  by (cases n)
    (simp_all add: shuffle_single perceptron_example_first perceptron_epochs_later)

lemma train_perceptron_good:
  "train_perceptron R g [good_ex] Unigram []
     = Inr \<lparr>weight_vector = [1 / 20, 0], featurizer_indexer = [''good''],
            train_exs_after = [good_ex], random_state = seed R 10\<rparr>"
  by (simp add: train_perceptron_def size_of_def perceptron_epochs_good)

lemma lr_predict_good:
  "lr_predict Unigram [''good''] (1 / 20 # ws) [''good''] = Inr (1, [''good''])"
  using sigmoid_gt_half [of "1 / 20"]
  by (simp add: lr_predict_def p_1_x_def score_of_def extract_good_known)

lemma lr_example_first:
  "lr_example Unigram (1 / 10) good_ex ([], []) = Inr ([''good''], [1 / 20, 0])"
  by (simp add: lr_example_def good_ex_def lr_predict_def p_1_x_def score_of_def
      extract_good_new extract_good_known size_of_def)

lemma lr_example_later:
  "lr_example Unigram (1 / 10) good_ex ([''good''], 1 / 20 # replicate (Suc k) 0)
     = Inr ([''good''], 1 / 20 # replicate (Suc (Suc k)) 0)"
  by (simp add: lr_example_def good_ex_def extract_good_known size_of_def lr_predict_good
      replicate_append_same)

lemma lr_epochs_later:
  "lr_epochs R Unigram (1 / 10) n ([good_ex], g, [''good''], 1 / 20 # replicate (Suc k) 0)
     = Inr ([good_ex], g, [''good''], 1 / 20 # replicate (Suc k + n) 0)"
proof (induction n arbitrary: k)
  case 0
  then show ?case by simp
next
  case (Suc n)
  have "lr_epochs R Unigram (1 / 10) (Suc n) ([good_ex], g, [''good''], 1 / 20 # replicate (Suc k) 0)
      = lr_epochs R Unigram (1 / 10) n ([good_ex], g, [''good''], 1 / 20 # replicate (Suc (Suc k)) 0)"
    by (simp add: shuffle_single lr_example_later del: replicate.simps)
  also have "\<dots> = Inr ([good_ex], g, [''good''], 1 / 20 # replicate (Suc (Suc k) + n) 0)"
    by (rule Suc.IH)
  finally show ?case by simp
qed

lemma lr_epochs_good:
  "lr_epochs R Unigram (1 / 10) (Suc n) ([good_ex], g, [], [])
     = Inr ([good_ex], g, [''good''], 1 / 20 # replicate (Suc n) 0)"
proof -
  have "lr_epochs R Unigram (1 / 10) (Suc n) ([good_ex], g, [], [])
          = lr_epochs R Unigram (1 / 10) n
              ([good_ex], g, [''good''], 1 / 20 # replicate (Suc 0) 0)"
    by (simp add: shuffle_single lr_example_first)
  also have "\<dots> = Inr ([good_ex], g, [''good''], 1 / 20 # replicate (Suc 0 + n) 0)"
    by (rule lr_epochs_later)
  finally show ?thesis by simp
qed

lemma train_logistic_regression_good:
  "train_logistic_regression R g [good_ex] Unigram []
     = Inr \<lparr>weight_vector = 1 / 20 # replicate 15 0, featurizer_indexer = [''good''],
            train_exs_after = [good_ex], random_state = seed R 2324\<rparr>"
proof -
  have "lr_epochs R Unigram (1 / 10) (Suc 14) ([good_ex], seed R 2324, [], [])
     = Inr ([good_ex], seed R 2324, [''good''], 1 / 20 # replicate (Suc 14) 0)"
    by (rule lr_epochs_good)
  then show ?thesis by (simp add: train_logistic_regression_def size_of_def)
qed

text \<open>
  Claim C1 (weight vector length equals indexer size) fails on the code. Training on
  the single example \<^verbatim>\<open>(["good"], 1)\<close> from an empty indexer, with any generator: the
  first update of the perceptron leaves two weights for an indexer of size 1, and so
  does the whole run; the first update of logistic regression does the same, and as its
  growth code runs for every example of every epoch, its run of 15 epochs ends with 16
  weights for an indexer of size 1.
\<close>

theorem weight_vector_outgrows_indexer:
  "perceptron_example Unigram (1 / 20) good_ex ([], []) = Inr ([''good''], [1 / 20, 0])
   \<and> map_sum id (\<lambda>t. (length (weight_vector t), size_of (featurizer_indexer t)))
       (train_perceptron R g [good_ex] Unigram []) = Inr (2, 1)
   \<and> lr_example Unigram (1 / 10) good_ex ([], []) = Inr ([''good''], [1 / 20, 0])
   \<and> map_sum id (\<lambda>t. (length (weight_vector t), size_of (featurizer_indexer t)))
       (train_logistic_regression R g [good_ex] Unigram []) = Inr (16, 1)"
  by (simp add: perceptron_example_first lr_example_first train_perceptron_good
      train_logistic_regression_good size_of_def)

end
